theory Spec2Isabelle
  imports
    Complex_Main
    "HOL-Library.Multiset"
    "HOL-Library.Char_ord"
    "HOL-Library.List_Lexorder"
begin

section \<open>Retail demand forecasting pipeline (app1.py)\<close>

text \<open>
  The script reads a CSV into a data frame, drops incomplete rows, parses the invoice
  dates, restricts the frame to one country, aggregates revenue and units per calendar
  day, fits a straight line to the daily revenue and projects it forward, and ranks the
  products by revenue.  The data frame is a list of rows in file order.  Numbers are
  modelled exactly: quantities as integers, prices and revenues as rationals (the
  rounding error of the 64-bit floats of the script is not part of the model).
\<close>

subsection \<open>Data model\<close>

text \<open>A pandas timestamp: nanoseconds since the epoch.  A date: days since the epoch
  (the midnight label that \<^verbatim>\<open>resample('D')\<close> gives to a bin).\<close>

type_synonym timestamp = int
type_synonym date = int

definition ns_per_day :: int where
  "ns_per_day = 86400000000000"

definition day_of :: "timestamp \<Rightarrow> date" where
  "day_of t = t div ns_per_day"

text \<open>What \<^verbatim>\<open>pd.to_datetime\<close> makes of the text of a date cell.\<close>

datatype date_cell = Parsed timestamp | Unparseable


text \<open>A row of the frame after \<^verbatim>\<open>dropna\<close> and \<^verbatim>\<open>to_datetime\<close>.\<close>

record row =
  InvoiceDate :: timestamp
  Quantity :: int
  UnitPrice :: rat
  Country :: string
  Description :: string

datatype error =
    ParserError   \<comment> \<open>\<^verbatim>\<open>pd.to_datetime\<close> met a cell it cannot parse\<close>
  | ValueError    \<comment> \<open>scikit-learn was given an array with 0 samples\<close>
  | IndexError    \<comment> \<open>\<^verbatim>\<open>.iloc[-1]\<close> on an empty column\<close>

subsection \<open>Cleaning (lines 37--41)\<close>






text \<open>\<^verbatim>\<open>df['TotalSale'] = df['Quantity'] * df['UnitPrice']\<close>\<close>

definition TotalSale :: "row \<Rightarrow> rat" where
  "TotalSale r = of_int (Quantity r) * UnitPrice r"

subsection \<open>Country selection (lines 45--46)\<close>

definition country_options :: "row list \<Rightarrow> string list" where
  "country_options df = sort (remdups (map Country df))"

definition select_country :: "string \<Rightarrow> row list \<Rightarrow> row list" where
  "select_country country df = filter (\<lambda>r. Country r = country) df"

subsection \<open>Daily aggregation (lines 49--54)\<close>

text \<open>\<^verbatim>\<open>groupby(key)[col].sum()\<close>: one entry per distinct key, keys ascending, the
  values of each group added up.\<close>

definition groupby_sum :: "('k::linorder \<times> 'v::comm_monoid_add) list \<Rightarrow> ('k \<times> 'v) list" where
  "groupby_sum kvs =
     map (\<lambda>k. (k, sum_list (map snd (filter (\<lambda>kv. fst kv = k) kvs))))
         (sort (remdups (map fst kvs)))"

text \<open>\<^verbatim>\<open>.resample('D').sum()\<close> on a series indexed by ascending timestamps: one bin
  per calendar day from the day of the first timestamp to the day of the last one, each
  holding the sum of the entries that fall on that day (0 for a day without entries).
  An empty series stays empty.  \<^verbatim>\<open>fillna(0)\<close> then finds nothing to fill.\<close>

definition resample_D_sum :: "(timestamp \<times> 'v::comm_monoid_add) list \<Rightarrow> (date \<times> 'v) list" where
  "resample_D_sum s =
     (if s = [] then []
      else map (\<lambda>d. (d, sum_list (map snd (filter (\<lambda>tv. day_of (fst tv) = d) s))))
               [day_of (fst (hd s)) .. day_of (fst (last s))])"

definition daily_sales :: "row list \<Rightarrow> (date \<times> rat) list" where
  "daily_sales df = resample_D_sum (groupby_sum (map (\<lambda>r. (InvoiceDate r, TotalSale r)) df))"

definition daily_units :: "row list \<Rightarrow> (date \<times> int) list" where
  "daily_units df = resample_D_sum (groupby_sum (map (\<lambda>r. (InvoiceDate r, Quantity r)) df))"

subsection \<open>Trend model (lines 74--79)\<close>

text \<open>\<^verbatim>\<open>daily_sales['day_number'] = np.arange(len(daily_sales))\<close>\<close>

definition day_number :: "'a list \<Rightarrow> rat list" where
  "day_number ds = map of_nat [0 ..< length ds]"

definition mean :: "rat list \<Rightarrow> rat" where
  "mean xs = sum_list xs / of_nat (length xs)"

record linear_model =
  coef :: rat
  intercept :: rat

text \<open>
  \<^verbatim>\<open>LinearRegression().fit(X, y)\<close> of scikit-learn with one feature and the default
  \<^verbatim>\<open>fit_intercept=True\<close>: the input check refuses an array with no sample (and arrays
  of different lengths) with a \<^verbatim>\<open>ValueError\<close>; otherwise both columns are centred on
  their means, the centred system is solved by \<^verbatim>\<open>lstsq\<close>, whose answer for a regressor
  that is constant (all centred values 0) is the minimum-norm one, 0, and the intercept
  is \<^verbatim>\<open>y_offset - X_offset * coef\<close>.  Nothing here asks for two samples.
\<close>

definition LinearRegression_fit :: "rat list \<Rightarrow> rat list \<Rightarrow> error + linear_model" where
  "LinearRegression_fit X y =
     (if X = [] \<or> length X \<noteq> length y then Inl ValueError
      else
        let X_offset = mean X;
            y_offset = mean y;
            Xc = map (\<lambda>x. x - X_offset) X;
            yc = map (\<lambda>v. v - y_offset) y;
            sxx = (\<Sum>x\<leftarrow>Xc. x * x);
            sxy = (\<Sum>(x, v)\<leftarrow>zip Xc yc. x * v);
            w = (if sxx = 0 then 0 else sxy / sxx)
        in Inr \<lparr>coef = w, intercept = y_offset - X_offset * w\<rparr>)"

text \<open>\<^verbatim>\<open>model.predict(X)\<close>: the same input check, then the line at every sample.\<close>

definition predict :: "linear_model \<Rightarrow> rat list \<Rightarrow> error + rat list" where
  "predict model X =
     (if X = [] then Inl ValueError
      else Inr (map (\<lambda>x. coef model * x + intercept model) X))"

subsection \<open>Forecast (lines 82--91)\<close>

text \<open>\<^verbatim>\<open>st.slider(label, 7, 90, 30)\<close>: the positions the widget offers, and the one it
  starts at.\<close>

definition slider_positions :: "int \<Rightarrow> int \<Rightarrow> int list" where
  "slider_positions min_value max_value = [min_value .. max_value]"

definition forecast_days_positions :: "int list" where
  "forecast_days_positions = slider_positions 7 90"

definition forecast_days_default :: int where
  "forecast_days_default = 30"

text \<open>\<^verbatim>\<open>np.arange(len(daily_sales), len(daily_sales) + forecast_days)\<close>\<close>

definition future_day_numbers :: "nat \<Rightarrow> int \<Rightarrow> rat list" where
  "future_day_numbers n forecast_days = map of_int [int n .. int n + forecast_days - 1]"

text \<open>\<^verbatim>\<open>column.iloc[-1]\<close>\<close>

definition iloc_last :: "'a list \<Rightarrow> error + 'a" where
  "iloc_last xs = (if xs = [] then Inl IndexError else Inr (last xs))"

text \<open>\<^verbatim>\<open>pd.date_range(start=..., periods=...)\<close> with the default daily frequency.\<close>

definition date_range :: "date \<Rightarrow> int \<Rightarrow> error + date list" where
  "date_range start periods =
     (if periods < 0 then Inl ValueError else Inr [start .. start + periods - 1])"

text \<open>\<^verbatim>\<open>.clip(lower=0)\<close> and \<^verbatim>\<open>.round(2)\<close>.  NumPy rounds the value scaled by 100 to the
  nearest integer, a tie going to the even one, and scales back.\<close>

definition clip_lower :: "rat \<Rightarrow> rat \<Rightarrow> rat" where
  "clip_lower lower x = max lower x"

definition rint :: "rat \<Rightarrow> int" where
  "rint x =
     (let f = \<lfloor>x\<rfloor>; r = x - of_int f
      in if r < 1 / 2 then f
         else if 1 / 2 < r then f + 1
         else if even f then f else f + 1)"

definition round2 :: "rat \<Rightarrow> rat" where
  "round2 x = of_int (rint (x * 100)) / 100"

text \<open>Lines 74--91 in the order the script runs them: fit, predict, last date, future
  dates, the frame of both columns, clip and round.  The first failing call ends the
  run.\<close>

definition forecast_df :: "(date \<times> rat) list \<Rightarrow> int \<Rightarrow> error + (date \<times> rat) list" where
  "forecast_df ds forecast_days =
     (case LinearRegression_fit (day_number ds) (map snd ds) of
        Inl e \<Rightarrow> Inl e
      | Inr model \<Rightarrow>
          (case predict model (future_day_numbers (length ds) forecast_days) of
             Inl e \<Rightarrow> Inl e
           | Inr forecasted_sales \<Rightarrow>
               (case iloc_last (map fst ds) of
                  Inl e \<Rightarrow> Inl e
                | Inr last_date \<Rightarrow>
                    (case date_range (last_date + 1) forecast_days of
                       Inl e \<Rightarrow> Inl e
                     | Inr future_dates \<Rightarrow>
                         Inr (zip future_dates
                                (map (\<lambda>v. round2 (clip_lower 0 v)) forecasted_sales))))))"

text \<open>\<^verbatim>\<open>forecast_days = st.slider(label, 7, 90, 30)\<close> (line 82).  The number of days is
  not typed in: it is where the handle of the slider stands, and the handle stands only
  on the positions of the track.  So a position is a value of a type of its own, the
  numbers of \<open>forecast_days_positions\<close>; before the user has moved the handle the widget
  returns its initial value.\<close>

typedef forecast_days_position = "set forecast_days_positions"
  by (rule exI [of _ 30]) (simp add: forecast_days_positions_def slider_positions_def)

definition forecast_days :: "forecast_days_position option \<Rightarrow> int" where
  "forecast_days handle =
     (case handle of
        None \<Rightarrow> forecast_days_default
      | Some position \<Rightarrow> Rep_forecast_days_position position)"


subsection \<open>Product ranking (lines 105--123)\<close>

text \<open>\<^verbatim>\<open>df['TotalSales'] = df['Quantity'] * df['UnitPrice']\<close>\<close>

definition TotalSales :: "row \<Rightarrow> rat" where
  "TotalSales r = of_int (Quantity r) * UnitPrice r"




subsection \<open>Notions the statements below use\<close>

text \<open>The least-squares objective of a line \<open>a * x + b\<close> on the samples.\<close>

definition sse :: "rat list \<Rightarrow> rat list \<Rightarrow> rat \<Rightarrow> rat \<Rightarrow> rat" where
  "sse X y a b = (\<Sum>(x, v)\<leftarrow>zip X y. (v - (a * x + b)) * (v - (a * x + b)))"


text \<open>The earliest and the latest calendar day on which a frame has a transaction.\<close>

definition first_date :: "row list \<Rightarrow> date" where
  "first_date df = Min ((\<lambda>r. day_of (InvoiceDate r)) ` set df)"

definition final_date :: "row list \<Rightarrow> date" where
  "final_date df = Max ((\<lambda>r. day_of (InvoiceDate r)) ` set df)"

text \<open>The revenue of a product in a frame: the sum of \<open>TotalSales\<close> over its rows.\<close>

definition revenue_of :: "row list \<Rightarrow> string \<Rightarrow> rat" where
  "revenue_of df d = (\<Sum>r\<leftarrow>filter (\<lambda>r. Description r = d) df. TotalSales r)"

subsection \<open>Concrete inputs\<close>

text \<open>Two French sales on 2024-01-01 and 2024-01-03 (revenue 100 and 300), and a Spanish
  one on the day between.\<close>

definition scenario_A :: "row list" where
  "scenario_A =
     [\<lparr>InvoiceDate = 1704103200000000000, Quantity = 10, UnitPrice = 10,
        Country = ''France'', Description = ''LUNCH BAG''\<rparr>,
      \<lparr>InvoiceDate = 1704276900000000000, Quantity = 100, UnitPrice = 3,
        Country = ''France'', Description = ''JAM JAR''\<rparr>,
      \<lparr>InvoiceDate = 1704190000000000000, Quantity = 7, UnitPrice = 5 / 2,
        Country = ''Spain'', Description = ''LUNCH BAG''\<rparr>]"

text \<open>Daily revenue series: a rising one of two days, one ending on 2024-01-10, a falling
  one, one whose fitted line has fractional values, and one of a single day.\<close>

definition scenario_B :: "(date \<times> rat) list" where
  "scenario_B = [(19723, 100), (19724, 200)]"

definition scenario_C :: "(date \<times> rat) list" where
  "scenario_C = [(19730, 20), (19731, 40), (19732, 30)]"

definition declining :: "(date \<times> rat) list" where
  "declining = [(19723, 30), (19724, 20), (19725, 10)]"

definition uneven :: "(date \<times> rat) list" where
  "uneven = [(19723, 0), (19724, 1), (19725, 1)]"

definition single_day :: "(date \<times> rat) list" where
  "single_day = [(19723, 5)]"


text \<open>Three products of one country; the first two in file order, \<open>MUG\<close> and \<open>BAG\<close>, have
  the same revenue 10, the third has revenue 3.\<close>

definition tied :: "row list" where
  "tied =
     [\<lparr>InvoiceDate = 1704103200000000000, Quantity = 2, UnitPrice = 5,
       Country = ''France'', Description = ''MUG''\<rparr>,
      \<lparr>InvoiceDate = 1704103200000000000, Quantity = 1, UnitPrice = 10,
       Country = ''France'', Description = ''BAG''\<rparr>,
      \<lparr>InvoiceDate = 1704276900000000000, Quantity = 1, UnitPrice = 3,
       Country = ''France'', Description = ''PEN''\<rparr>]"





section \<open>Aggregation\<close>

subsection \<open>Sums over groups\<close>

lemma sum_list_delta:
  "distinct ks \<Longrightarrow> a \<in> set ks \<Longrightarrow> (\<Sum>k\<leftarrow>ks. if a = k then c else 0) = (c::'v::comm_monoid_add)"
proof (induction ks)
  case Nil
  then show ?case by simp
next
  case (Cons k ks)
  show ?case
  proof (cases "a = k")
    case True
    with Cons.prems have "a \<notin> set ks" by simp
    then have "(\<Sum>k\<leftarrow>ks. if a = k then c else 0) = 0"
      by (induction ks) auto
    with True show ?thesis by simp
  next
    case False
    with Cons show ?thesis by simp
  qed
qed

lemma sum_list_group:
  fixes f :: "'a \<Rightarrow> 'v::comm_monoid_add"
  assumes "distinct ks" and "key ` set xs \<subseteq> set ks"
  shows "(\<Sum>k\<leftarrow>ks. \<Sum>x\<leftarrow>filter (\<lambda>x. key x = k) xs. f x) = (\<Sum>x\<leftarrow>xs. f x)"
  using assms(2)
proof (induction xs)
  case Nil
  then show ?case by simp
next
  case (Cons x xs)
  have "(\<Sum>k\<leftarrow>ks. \<Sum>x'\<leftarrow>filter (\<lambda>x'. key x' = k) (x # xs). f x') =
        (\<Sum>k\<leftarrow>ks. (if key x = k then f x else 0) + (\<Sum>x'\<leftarrow>filter (\<lambda>x'. key x' = k) xs. f x'))"
    by (rule arg_cong [where f = sum_list]) simp
  also have "\<dots> = (\<Sum>k\<leftarrow>ks. if key x = k then f x else 0) +
                   (\<Sum>k\<leftarrow>ks. \<Sum>x'\<leftarrow>filter (\<lambda>x'. key x' = k) xs. f x')"
    by (simp add: sum_list_addf)
  also have "\<dots> = f x + (\<Sum>x\<leftarrow>xs. f x)"
    using Cons assms(1) by (simp add: sum_list_delta)
  finally show ?case by simp
qed

lemma groupby_sum_keys: "map fst (groupby_sum kvs) = sort (remdups (map fst kvs))"
  by (simp add: groupby_sum_def comp_def)

lemma groupby_sum_filter:
  fixes kvs :: "('k::linorder \<times> 'v::comm_monoid_add) list"
  shows "(\<Sum>kv\<leftarrow>filter (\<lambda>kv. P (fst kv)) (groupby_sum kvs). snd kv) =
         (\<Sum>kv\<leftarrow>filter (\<lambda>kv. P (fst kv)) kvs. snd kv)"
proof -
  let ?ks = "filter P (sort (remdups (map fst kvs)))"
  let ?xs = "filter (\<lambda>kv. P (fst kv)) kvs"
  have "(\<Sum>kv\<leftarrow>filter (\<lambda>kv. P (fst kv)) (groupby_sum kvs). snd kv) =
        (\<Sum>k\<leftarrow>?ks. \<Sum>kv\<leftarrow>filter (\<lambda>kv. fst kv = k) kvs. snd kv)"
    by (simp add: groupby_sum_def filter_map comp_def)
  also have "\<dots> = (\<Sum>k\<leftarrow>?ks. \<Sum>kv\<leftarrow>filter (\<lambda>kv. fst kv = k) ?xs. snd kv)"
  proof (rule arg_cong [where f = sum_list], rule map_cong [OF refl])
    fix k assume "k \<in> set ?ks"
    then have "P k" by simp
    then have "filter (\<lambda>kv. fst kv = k) ?xs = filter (\<lambda>kv. fst kv = k) kvs"
      by (auto intro: filter_cong)
    then show "(\<Sum>kv\<leftarrow>filter (\<lambda>kv. fst kv = k) kvs. snd kv) =
               (\<Sum>kv\<leftarrow>filter (\<lambda>kv. fst kv = k) ?xs. snd kv)"
      by simp
  qed
  also have "\<dots> = (\<Sum>kv\<leftarrow>?xs. snd kv)"
    by (rule sum_list_group) auto
  finally show ?thesis .
qed

lemma sorted_hd_Min: "sorted xs \<Longrightarrow> xs \<noteq> [] \<Longrightarrow> hd xs = Min (set xs)"
  by (cases xs) (auto intro!: Min_eqI [symmetric])

lemma sorted_last_Max: "sorted xs \<Longrightarrow> xs \<noteq> [] \<Longrightarrow> last xs = Max (set xs)"
  by (induction xs) (auto intro!: Max_eqI [symmetric] simp: max_def)

lemma mono_day_of: "mono day_of"
  by (rule monoI) (simp add: day_of_def ns_per_day_def zdiv_mono1)




lemma resample_groupby:
  fixes kvs :: "(timestamp \<times> 'v::comm_monoid_add) list"
  assumes "kvs \<noteq> []"
  shows "resample_D_sum (groupby_sum kvs) =
           map (\<lambda>d. (d, \<Sum>kv\<leftarrow>filter (\<lambda>kv. day_of (fst kv) = d) kvs. snd kv))
               [Min ((\<lambda>kv. day_of (fst kv)) ` set kvs) .. Max ((\<lambda>kv. day_of (fst kv)) ` set kvs)]"
proof -
  let ?g = "groupby_sum kvs"
  let ?ks = "sort (remdups (map fst kvs))"
  have keys: "map fst ?g = ?ks" by (rule groupby_sum_keys)
  have ne: "?ks \<noteq> []" using assms by (metis length_0_conv length_sort remdups_eq_nil_iff map_is_Nil_conv)
  then have gne: "?g \<noteq> []" using keys by (metis map_is_Nil_conv)
  have set_ks: "set ?ks = fst ` set kvs" by simp
  have fin: "finite (fst ` set kvs)" and nonempty: "fst ` set kvs \<noteq> {}"
    using assms by simp_all
  have "fst (hd ?g) = hd ?ks" using gne keys by (metis hd_map)
  also have "\<dots> = Min (fst ` set kvs)"
    using sorted_hd_Min [of ?ks] ne set_ks by simp
  finally have "day_of (fst (hd ?g)) = day_of (Min (fst ` set kvs))" by simp
  also have "\<dots> = Min (day_of ` fst ` set kvs)"
    by (rule mono_Min_commute [OF mono_day_of fin nonempty])
  finally have lo: "day_of (fst (hd ?g)) = Min ((\<lambda>kv. day_of (fst kv)) ` set kvs)"
    by (simp add: image_image)
  have "fst (last ?g) = last ?ks" using gne keys by (metis last_map)
  also have "\<dots> = Max (fst ` set kvs)"
    using sorted_last_Max [of ?ks] ne set_ks by simp
  finally have "day_of (fst (last ?g)) = day_of (Max (fst ` set kvs))" by simp
  also have "\<dots> = Max (day_of ` fst ` set kvs)"
    by (rule mono_Max_commute [OF mono_day_of fin nonempty])
  finally have hi: "day_of (fst (last ?g)) = Max ((\<lambda>kv. day_of (fst kv)) ` set kvs)"
    by (simp add: image_image)
  have bins: "(\<Sum>kv\<leftarrow>filter (\<lambda>kv. day_of (fst kv) = d) ?g. snd kv) =
              (\<Sum>kv\<leftarrow>filter (\<lambda>kv. day_of (fst kv) = d) kvs. snd kv)" for d
    by (rule groupby_sum_filter [where P = "\<lambda>t. day_of t = d"])
  show ?thesis
    using gne by (simp add: resample_D_sum_def lo hi bins)
qed

lemma daily_sales_eq:
  assumes "df \<noteq> []"
  shows "daily_sales df =
           map (\<lambda>d. (d, \<Sum>r\<leftarrow>filter (\<lambda>r. day_of (InvoiceDate r) = d) df. TotalSale r))
               [first_date df .. final_date df]"
  using assms
  by (simp add: daily_sales_def resample_groupby filter_map comp_def image_image
        first_date_def final_date_def)

lemma daily_units_eq:
  assumes "df \<noteq> []"
  shows "daily_units df =
           map (\<lambda>d. (d, \<Sum>r\<leftarrow>filter (\<lambda>r. day_of (InvoiceDate r) = d) df. Quantity r))
               [first_date df .. final_date df]"
  using assms
  by (simp add: daily_units_def resample_groupby filter_map comp_def image_image
        first_date_def final_date_def)

subsection \<open>Zero-fill completeness\<close>

text \<open>
  Claim C1.  For a country-filtered frame with at least one row, the daily revenue
  series and the daily units series have exactly one point for every calendar day from
  the earliest to the latest transaction day, in order and without repetition, that is
  \<open>final_date - first_date + 1\<close> points, and a day on which the frame has no transaction
  shows revenue 0 and units 0.
\<close>

theorem daily_series_zero_fill:
  assumes "df = select_country country rows" and "df \<noteq> []"
  shows "map fst (daily_sales df) = [first_date df .. final_date df] \<and>
         map fst (daily_units df) = [first_date df .. final_date df] \<and>
         length (daily_sales df) = nat (final_date df - first_date df + 1) \<and>
         length (daily_units df) = nat (final_date df - first_date df + 1) \<and>
         distinct (map fst (daily_sales df)) \<and>
         distinct (map fst (daily_units df)) \<and>
         (\<forall>d v. (d, v) \<in> set (daily_sales df) \<and> d \<notin> (\<lambda>r. day_of (InvoiceDate r)) ` set df
                 \<longrightarrow> v = 0) \<and>
         (\<forall>d u. (d, u) \<in> set (daily_units df) \<and> d \<notin> (\<lambda>r. day_of (InvoiceDate r)) ` set df
                 \<longrightarrow> u = 0)"
proof -
  have empty_day: "filter (\<lambda>r. day_of (InvoiceDate r) = d) df = []"
    if "d \<notin> (\<lambda>r. day_of (InvoiceDate r)) ` set df" for d
    using that by (auto simp: filter_empty_conv)
  have s: "map fst (daily_sales df) = [first_date df .. final_date df]"
    by (simp add: daily_sales_eq [OF assms(2)] comp_def)
  have u: "map fst (daily_units df) = [first_date df .. final_date df]"
    by (simp add: daily_units_eq [OF assms(2)] comp_def)
  have ls: "length (daily_sales df) = nat (final_date df - first_date df + 1)"
    using arg_cong [OF s, of length] by simp
  have lu: "length (daily_units df) = nat (final_date df - first_date df + 1)"
    using arg_cong [OF u, of length] by simp
  have zs: "\<forall>d v. (d, v) \<in> set (daily_sales df) \<and> d \<notin> (\<lambda>r. day_of (InvoiceDate r)) ` set df
                 \<longrightarrow> v = 0"
    using empty_day by (auto simp: daily_sales_eq [OF assms(2)])
  have zu: "\<forall>d u. (d, u) \<in> set (daily_units df) \<and> d \<notin> (\<lambda>r. day_of (InvoiceDate r)) ` set df
                 \<longrightarrow> u = 0"
    using empty_day by (auto simp: daily_units_eq [OF assms(2)])
  show ?thesis
    using s u ls lu zs zu by simp
qed

lemma scenario_A_France:
  "select_country ''France'' scenario_A =
     [\<lparr>InvoiceDate = 1704103200000000000, Quantity = 10, UnitPrice = 10,
        Country = ''France'', Description = ''LUNCH BAG''\<rparr>,
      \<lparr>InvoiceDate = 1704276900000000000, Quantity = 100, UnitPrice = 3,
        Country = ''France'', Description = ''JAM JAR''\<rparr>]"
  by (simp add: select_country_def scenario_A_def)

lemma scenario_A_dates:
  "first_date (select_country ''France'' scenario_A) = 19723"
  "final_date (select_country ''France'' scenario_A) = 19725"
  by (simp_all add: scenario_A_France first_date_def final_date_def day_of_def ns_per_day_def)

lemma scenario_A_daily_sales:
  "daily_sales (select_country ''France'' scenario_A) = [(19723, 100), (19724, 0), (19725, 300)]"
  by (simp add: scenario_A_France daily_sales_def groupby_sum_def resample_D_sum_def
        TotalSale_def day_of_def ns_per_day_def upto_rec1)


lemma scenario_A_daily_units:
  "daily_units (select_country ''France'' scenario_A) = [(19723, 10), (19724, 0), (19725, 100)]"
  by (simp add: scenario_A_France daily_units_def groupby_sum_def resample_D_sum_def
        day_of_def ns_per_day_def upto_rec1)

theorem daily_series_zero_fill_witness:
  "select_country ''France'' scenario_A \<noteq> [] \<and>
   map fst (daily_sales (select_country ''France'' scenario_A)) = [19723, 19724, 19725] \<and>
   map fst (daily_units (select_country ''France'' scenario_A)) = [19723, 19724, 19725] \<and>
   length (daily_sales (select_country ''France'' scenario_A)) = 3 \<and>
   (19724, 0) \<in> set (daily_sales (select_country ''France'' scenario_A)) \<and>
   (19724, 0) \<in> set (daily_units (select_country ''France'' scenario_A)) \<and>
   19724 \<notin> (\<lambda>r. day_of (InvoiceDate r)) ` set (select_country ''France'' scenario_A)"
proof -
  let ?df = "select_country ''France'' scenario_A"
  have ne: "?df \<noteq> []" by (simp add: scenario_A_France)
  note zf = daily_series_zero_fill [OF refl ne]
  have range: "[first_date ?df .. final_date ?df] = [19723, 19724, 19725]"
    by (simp add: scenario_A_dates upto_rec1)
  have absent: "19724 \<notin> (\<lambda>r. day_of (InvoiceDate r)) ` set ?df"
    by (simp add: scenario_A_France day_of_def ns_per_day_def)
  have "length (daily_sales ?df) = 3"
    using zf by (simp add: scenario_A_dates)
  moreover have "(19724, 0) \<in> set (daily_sales ?df)" "(19724, 0) \<in> set (daily_units ?df)"
    by (simp_all add: scenario_A_daily_sales scenario_A_daily_units)
  ultimately show ?thesis
    using ne zf range absent by simp
qed

section \<open>Forecast\<close>

subsection \<open>What the forecast frame holds\<close>

lemma length_day_number: "length (day_number ds) = length ds"
  by (simp add: day_number_def)

lemma fit_total:
  assumes "ds \<noteq> []"
  shows "\<exists>m. LinearRegression_fit (day_number ds) (map snd ds) = Inr m"
proof -
  have "day_number ds \<noteq> []" using assms by (simp add: day_number_def)
  then show ?thesis
    by (simp add: LinearRegression_fit_def Let_def length_day_number)
qed

lemma fit_Nil: "LinearRegression_fit (day_number ds) (map snd ds) = Inr m \<Longrightarrow> ds \<noteq> []"
  by (auto simp: LinearRegression_fit_def day_number_def)

lemma future_day_numbers_Nil_iff: "future_day_numbers n h = [] \<longleftrightarrow> h \<le> 0"
  by (auto simp: future_day_numbers_def)

lemma length_future_day_numbers: "length (future_day_numbers n h) = nat h"
  by (simp add: future_day_numbers_def)

lemma forecast_df_eq:
  assumes "LinearRegression_fit (day_number ds) (map snd ds) = Inr m" and "1 \<le> h"
  shows "forecast_df ds h =
           Inr (zip [fst (last ds) + 1 .. fst (last ds) + h]
                    (map (\<lambda>x. round2 (clip_lower 0 (coef m * x + intercept m)))
                         (future_day_numbers (length ds) h)))"
proof -
  have ne: "ds \<noteq> []"
    using assms(1) by (rule fit_Nil)
  have fut: "future_day_numbers (length ds) h \<noteq> []"
    using assms(2) by (simp add: future_day_numbers_Nil_iff)
  have lst: "iloc_last (map fst ds) = Inr (fst (last ds))"
    using ne by (simp add: iloc_last_def last_map)
  have rng: "date_range (fst (last ds) + 1) h = Inr [fst (last ds) + 1 .. fst (last ds) + h]"
    using assms(2) by (simp add: date_range_def)
  show ?thesis
    by (simp add: forecast_df_def assms(1) predict_def fut lst rng comp_def)
qed

lemma forecast_df_Nil: "forecast_df [] h = Inl ValueError"
  by (simp add: forecast_df_def LinearRegression_fit_def day_number_def)

lemma forecast_df_nonpositive:
  assumes "h \<le> 0"
  shows "forecast_df ds h = Inl ValueError"
proof (cases "ds = []")
  case True
  then show ?thesis by (simp add: forecast_df_Nil)
next
  case False
  then obtain m where "LinearRegression_fit (day_number ds) (map snd ds) = Inr m"
    using fit_total by blast
  moreover have "future_day_numbers (length ds) h = []"
    using assms by (simp add: future_day_numbers_Nil_iff)
  ultimately show ?thesis
    by (simp add: forecast_df_def predict_def)
qed

lemma rint_nonneg: "0 \<le> x \<Longrightarrow> 0 \<le> rint x"
  by (auto simp: rint_def Let_def)

lemma round2_nonneg: "0 \<le> x \<Longrightarrow> 0 \<le> round2 x"
  by (simp add: round2_def rint_nonneg)

lemma clip_lower_ge: "lower \<le> clip_lower lower x"
  by (simp add: clip_lower_def)

lemma zip_snd_in: "p \<in> set (zip xs ys) \<Longrightarrow> snd p \<in> set ys"
  by (metis prod.collapse set_zip_rightD)

subsection \<open>Forecast contiguity\<close>

text \<open>
  Claim C4.  For a non-empty daily series and a horizon of at least one day (the slider
  offers 7 to 90), the forecast has exactly as many points as the horizon, and their
  dates are the consecutive calendar days that start the day after the last date of the
  series.
\<close>

theorem forecast_contiguity:
  assumes "ds \<noteq> []" and "1 \<le> h"
  shows "\<exists>pts. forecast_df ds h = Inr pts \<and> length pts = nat h \<and>
               map fst pts = [fst (last ds) + 1 .. fst (last ds) + h]"
proof -
  obtain m where fit: "LinearRegression_fit (day_number ds) (map snd ds) = Inr m"
    using fit_total [OF assms(1)] by blast
  note forecast_df_eq [OF fit assms(2)]
  moreover have "length [fst (last ds) + 1 .. fst (last ds) + h] = nat h"
    by simp
  ultimately show ?thesis
    by (simp add: length_future_day_numbers)
qed

lemma scenario_C_forecast:
  "forecast_df scenario_C 5 =
     Inr [(19733, 40), (19734, 45), (19735, 50), (19736, 55), (19737, 60)]"
  by code_simp

theorem forecast_contiguity_witness:
  "scenario_C \<noteq> [] \<and> (1::int) \<le> 5 \<and> fst (last scenario_C) = 19732 \<and>
   (\<exists>pts. forecast_df scenario_C 5 = Inr pts \<and> length pts = 5 \<and>
          map fst pts = [19733, 19734, 19735, 19736, 19737])"
proof -
  have ne: "scenario_C \<noteq> []" and lst: "fst (last scenario_C) = 19732"
    by (simp_all add: scenario_C_def)
  have rng: "[19732 + 1 .. 19732 + 5] = [19733, 19734, 19735, 19736, 19737 :: int]"
    by (simp add: upto_rec1)
  from forecast_contiguity [OF ne, of 5] show ?thesis
    using ne by (simp add: lst rng)
qed

subsection \<open>Non-negative forecast\<close>

text \<open>
  Claim C5.  Every value of the forecast is at least 0, also when the fitted line falls:
  the prediction is clipped at 0 before it is rounded.
\<close>

theorem forecast_nonneg:
  assumes "ds \<noteq> []" and "1 \<le> h"
  shows "\<exists>pts. forecast_df ds h = Inr pts \<and> length pts = nat h \<and> (\<forall>p\<in>set pts. 0 \<le> snd p)"
proof -
  obtain m where fit: "LinearRegression_fit (day_number ds) (map snd ds) = Inr m"
    using fit_total [OF assms(1)] by blast
  note eq = forecast_df_eq [OF fit assms(2)]
  have "0 \<le> snd p"
    if "p \<in> set (zip [fst (last ds) + 1 .. fst (last ds) + h]
                (map (\<lambda>x. round2 (clip_lower 0 (coef m * x + intercept m)))
                     (future_day_numbers (length ds) h)))" for p
  proof -
    from that have "snd p \<in> set (map (\<lambda>x. round2 (clip_lower 0 (coef m * x + intercept m)))
                     (future_day_numbers (length ds) h))"
      by (rule zip_snd_in)
    then show ?thesis
      by (auto simp: round2_nonneg clip_lower_ge)
  qed
  then show ?thesis
    using eq by (simp add: length_future_day_numbers)
qed

lemma declining_fit:
  "LinearRegression_fit (day_number declining) (map snd declining) =
     Inr \<lparr>coef = - 10, intercept = 30\<rparr>"
  by code_simp

lemma declining_forecast:
  "forecast_df declining 7 =
     Inr [(19726, 0), (19727, 0), (19728, 0), (19729, 0), (19730, 0), (19731, 0), (19732, 0)]"
  by code_simp

theorem forecast_nonneg_witness:
  "declining \<noteq> [] \<and> (1::int) \<le> 7 \<and>
   LinearRegression_fit (day_number declining) (map snd declining) =
     Inr \<lparr>coef = - 10, intercept = 30\<rparr> \<and>
   (\<exists>pts. forecast_df declining 7 = Inr pts \<and> length pts = 7 \<and> (\<forall>p\<in>set pts. 0 \<le> snd p))"
proof -
  have ne: "declining \<noteq> []" by (simp add: declining_def)
  from forecast_nonneg [OF ne, of 7] show ?thesis
    using ne declining_fit by simp
qed

subsection \<open>Clipping and rounding\<close>



lemma uneven_forecast:
  "forecast_df uneven 2 = Inr [(19726, 167 / 100), (19727, 217 / 100)]"
  by code_simp


subsection \<open>The horizon\<close>








subsection \<open>Series of fewer than two days\<close>

lemma single_fit: "LinearRegression_fit (day_number [(d::date, v::rat)]) (map snd [(d, v)]) =
                     Inr \<lparr>coef = 0, intercept = v\<rparr>"
  by (simp add: LinearRegression_fit_def day_number_def mean_def Let_def)

lemma single_day_forecast:
  "forecast_df single_day 7 =
     Inr [(19724, 5), (19725, 5), (19726, 5), (19727, 5), (19728, 5), (19729, 5), (19730, 5)]"
  by code_simp

text \<open>
  Claim C7 says that a series of fewer than two points is not fitted silently.  On a
  series of one day the fit goes through without any error; it is degenerate (the line
  of slope 1 through the point has the same squared error 0 as the fitted line of slope
  0), and a forecast comes out of it.
\<close>

theorem insufficient_history_counterexample:
  "length single_day < 2 \<and>
   LinearRegression_fit (day_number single_day) (map snd single_day) =
     Inr \<lparr>coef = 0, intercept = 5\<rparr> \<and>
   sse (day_number single_day) (map snd single_day) 0 5 = 0 \<and>
   sse (day_number single_day) (map snd single_day) 1 5 = 0 \<and>
   forecast_df single_day 7 =
     Inr [(19724, 5), (19725, 5), (19726, 5), (19727, 5), (19728, 5), (19729, 5), (19730, 5)] \<and>
   \<not> isl (forecast_df single_day 7)"
proof -
  have "LinearRegression_fit (day_number single_day) (map snd single_day) =
          Inr \<lparr>coef = 0, intercept = 5\<rparr>"
    unfolding single_day_def by (rule single_fit)
  moreover have "sse (day_number single_day) (map snd single_day) 0 5 = 0"
    and "sse (day_number single_day) (map snd single_day) 1 5 = 0"
    by (simp_all add: single_day_def sse_def day_number_def)
  ultimately show ?thesis
    by (simp add: single_day_forecast) (simp add: single_day_def)
qed

text \<open>
  Claim C7, as the code has it.  Nothing guards the fit.  On a series of one day the fit
  returns slope 0 and the day's revenue as intercept, and the forecast repeats that
  revenue (clipped at 0 and rounded) on each future day; on an empty series the fit
  raises the library's \<^verbatim>\<open>ValueError\<close>.
\<close>

theorem short_series_unguarded:
  "(\<forall>h. forecast_df [] h = Inl ValueError) \<and>
   (\<forall>d v h. 1 \<le> h \<longrightarrow>
      LinearRegression_fit (day_number [(d, v)]) (map snd [(d, v)]) =
        Inr \<lparr>coef = 0, intercept = v\<rparr> \<and>
      forecast_df [(d, v)] h =
        Inr (zip [d + 1 .. d + h] (replicate (nat h) (round2 (max 0 v)))))"
proof -
  have "forecast_df [(d, v)] h =
          Inr (zip [d + 1 .. d + h] (replicate (nat h) (round2 (max 0 v))))"
    if pos: "1 \<le> h" for d v h
    using forecast_df_eq [OF single_fit pos, of d v]
    by (simp add: clip_lower_def map_replicate_const length_future_day_numbers)
  then show ?thesis
    using single_fit by (simp add: forecast_df_Nil)
qed

theorem short_series_unguarded_witness:
  "(1::int) \<le> 7 \<and>
   LinearRegression_fit (day_number single_day) (map snd single_day) =
     Inr \<lparr>coef = 0, intercept = 5\<rparr> \<and>
   forecast_df single_day 7 = Inr (zip [19724 .. 19730] (replicate 7 5)) \<and>
   forecast_df [] 7 = Inl ValueError"
proof -
  have r: "round2 5 = 5" by code_simp
  note u = short_series_unguarded
  have "forecast_df [] 7 = Inl ValueError"
    using u by blast
  moreover have
    "LinearRegression_fit (day_number [(19723::date, 5::rat)]) (map snd [(19723::date, 5::rat)]) =
       Inr \<lparr>coef = 0, intercept = 5\<rparr> \<and>
     forecast_df [(19723, 5)] 7 =
       Inr (zip [19723 + 1 .. 19723 + 7] (replicate (nat 7) (round2 (max 0 5))))"
    by (rule u [THEN conjunct2, rule_format, of 7 19723 5]) simp
  ultimately show ?thesis
    by (simp add: single_day_def r)
qed

section \<open>Product ranking\<close>








lemma tied_pen: "revenue_of tied ''PEN'' = 3"
  by code_simp




section \<open>Returns\<close>

subsection \<open>Cleaning and daily values\<close>














subsection \<open>Rows of negative quantity\<close>




section \<open>Least-squares trend\<close>

lemma sum_list_sq_plus:
  fixes r e :: "'a \<Rightarrow> rat"
  assumes "(\<Sum>p\<leftarrow>ps. r p * e p) = 0"
  shows "(\<Sum>p\<leftarrow>ps. r p * r p) \<le> (\<Sum>p\<leftarrow>ps. (r p + e p) * (r p + e p))"
proof -
  have "(\<Sum>p\<leftarrow>ps. (r p + e p) * (r p + e p)) =
        (\<Sum>p\<leftarrow>ps. r p * r p + (2 * (r p * e p) + e p * e p))"
    by (rule arg_cong [where f = sum_list]) (simp add: algebra_simps)
  also have "\<dots> = (\<Sum>p\<leftarrow>ps. r p * r p) + (2 * (\<Sum>p\<leftarrow>ps. r p * e p) + (\<Sum>p\<leftarrow>ps. e p * e p))"
    by (simp add: sum_list_addf sum_list_const_mult)
  also have "\<dots> = (\<Sum>p\<leftarrow>ps. r p * r p) + (\<Sum>p\<leftarrow>ps. e p * e p)"
    by (simp add: assms)
  finally have "(\<Sum>p\<leftarrow>ps. (r p + e p) * (r p + e p)) =
                (\<Sum>p\<leftarrow>ps. r p * r p) + (\<Sum>p\<leftarrow>ps. e p * e p)" .
  moreover have "0 \<le> (\<Sum>p\<leftarrow>ps. e p * e p)"
    by (rule sum_list_nonneg) auto
  ultimately show ?thesis by simp
qed

lemma sum_list_centred:
  fixes f :: "'a \<Rightarrow> rat"
  assumes "ps \<noteq> []"
  shows "(\<Sum>p\<leftarrow>ps. f p - (\<Sum>p\<leftarrow>ps. f p) / of_nat (length ps)) = 0"
proof -
  have "of_nat (length ps) \<noteq> (0::rat)" using assms by simp
  then show ?thesis
    by (simp add: sum_list_subtractf sum_list_triv)
qed

lemma sum_list_sq_zero:
  fixes f :: "'a \<Rightarrow> rat"
  shows "(\<Sum>p\<leftarrow>ps. f p * f p) = 0 \<Longrightarrow> p \<in> set ps \<Longrightarrow> f p = 0"
proof (induction ps)
  case Nil
  then show ?case by simp
next
  case (Cons a ps)
  have "0 \<le> f a * f a" and "0 \<le> (\<Sum>p\<leftarrow>ps. f p * f p)"
    by (auto intro!: sum_list_nonneg)
  with Cons.prems(1) have "f a * f a = 0" and "(\<Sum>p\<leftarrow>ps. f p * f p) = 0"
    by (simp_all add: add_nonneg_eq_0_iff)
  then show ?case
    using Cons by auto
qed

lemma sum_zip_fst:
  "length X = length y \<Longrightarrow> (\<Sum>p\<leftarrow>zip X y. f (fst p)) = (\<Sum>x\<leftarrow>X. f x)"
  by (induction X y rule: list_induct2) auto

lemma sum_zip_snd:
  "length X = length y \<Longrightarrow> (\<Sum>p\<leftarrow>zip X y. f (snd p)) = (\<Sum>v\<leftarrow>y. f v)"
  by (induction X y rule: list_induct2) auto

lemma sum_zip_map:
  "length X = length y \<Longrightarrow>
   (\<Sum>(x, v)\<leftarrow>zip (map f X) (map g y). h x v) = (\<Sum>p\<leftarrow>zip X y. h (f (fst p)) (g (snd p)))"
  by (induction X y rule: list_induct2) auto

lemma fit_coefficients:
  assumes fit: "LinearRegression_fit X y = Inr m"
  defines "ps \<equiv> zip X y"
  defines "mx \<equiv> (\<Sum>p\<leftarrow>ps. fst p) / of_nat (length ps)"
  defines "my \<equiv> (\<Sum>p\<leftarrow>ps. snd p) / of_nat (length ps)"
  defines "sxx \<equiv> (\<Sum>p\<leftarrow>ps. (fst p - mx) * (fst p - mx))"
  defines "sxy \<equiv> (\<Sum>p\<leftarrow>ps. (fst p - mx) * (snd p - my))"
  shows "ps \<noteq> []" and "coef m = (if sxx = 0 then 0 else sxy / sxx)"
    and "intercept m = my - mx * coef m"
proof -
  from fit have ne: "X \<noteq> []" and len: "length X = length y"
    by (auto simp: LinearRegression_fit_def split: if_splits)
  show "ps \<noteq> []" using ne len unfolding ps_def by (cases X; cases y) auto
  have lps: "length ps = length X" using len by (simp add: ps_def)
  have mx: "mean X = mx"
    unfolding mx_def mean_def lps ps_def using sum_zip_fst [OF len, of "\<lambda>x. x"] len by simp
  have my: "mean y = my"
    unfolding my_def mean_def lps ps_def using sum_zip_snd [OF len, of "\<lambda>x. x"] len by simp
  have sxx: "(\<Sum>x\<leftarrow>map (\<lambda>x. x - mx) X. x * x) = sxx"
    unfolding sxx_def ps_def using sum_zip_fst [OF len, of "\<lambda>x. (x - mx) * (x - mx)"]
    by (simp add: comp_def)
  have sxy: "(\<Sum>(x, v)\<leftarrow>zip (map (\<lambda>x. x - mx) X) (map (\<lambda>v. v - my) y). x * v) = sxy"
    unfolding sxy_def ps_def by (rule sum_zip_map [OF len])
  from fit ne len have "m = \<lparr>coef = (if sxx = 0 then 0 else sxy / sxx),
                              intercept = my - mx * (if sxx = 0 then 0 else sxy / sxx)\<rparr>"
    unfolding LinearRegression_fit_def Let_def mx my sxx sxy by simp
  then show "coef m = (if sxx = 0 then 0 else sxy / sxx)" and "intercept m = my - mx * coef m"
    by simp_all
qed


lemma ols_optimal:
  fixes ps :: "(rat \<times> rat) list"
  assumes ne: "ps \<noteq> []"
  defines "mx \<equiv> (\<Sum>p\<leftarrow>ps. fst p) / of_nat (length ps)"
  defines "my \<equiv> (\<Sum>p\<leftarrow>ps. snd p) / of_nat (length ps)"
  defines "sxx \<equiv> (\<Sum>p\<leftarrow>ps. (fst p - mx) * (fst p - mx))"
  defines "sxy \<equiv> (\<Sum>p\<leftarrow>ps. (fst p - mx) * (snd p - my))"
  assumes w: "w = (if sxx = 0 then 0 else sxy / sxx)" and b: "b = my - mx * w"
  shows "(\<Sum>p\<leftarrow>ps. (snd p - (w * fst p + b)) * (snd p - (w * fst p + b))) \<le>
         (\<Sum>p\<leftarrow>ps. (snd p - (a * fst p + c)) * (snd p - (a * fst p + c)))"
proof -
  define r where "r = (\<lambda>p :: rat \<times> rat. (snd p - my) - w * (fst p - mx))"
  define \<beta> where "\<beta> = (w - a) * mx + b - c"
  define e where "e = (\<lambda>p :: rat \<times> rat. (w - a) * (fst p - mx) + \<beta>)"
  have cx: "(\<Sum>p\<leftarrow>ps. fst p - mx) = 0"
    unfolding mx_def by (rule sum_list_centred [OF ne])
  have cy: "(\<Sum>p\<leftarrow>ps. snd p - my) = 0"
    unfolding my_def by (rule sum_list_centred [OF ne])
  have cx': "sum_list (map fst ps) - (\<Sum>p\<leftarrow>ps. mx) = 0"
    using cx by (simp add: sum_list_subtractf)
  have cy': "sum_list (map snd ps) - (\<Sum>p\<leftarrow>ps. my) = 0"
    using cy by (simp add: sum_list_subtractf)
  have sum_r: "(\<Sum>p\<leftarrow>ps. r p) = 0"
    unfolding r_def by (simp add: sum_list_subtractf sum_list_const_mult cx' cy')
  have "(\<Sum>p\<leftarrow>ps. r p * (fst p - mx)) =
        (\<Sum>p\<leftarrow>ps. (fst p - mx) * (snd p - my) - w * ((fst p - mx) * (fst p - mx)))"
    unfolding r_def by (rule arg_cong [where f = sum_list]) (simp add: algebra_simps)
  also have "\<dots> = sxy - w * sxx"
    unfolding sxx_def sxy_def by (simp add: sum_list_subtractf sum_list_const_mult)
  also have "\<dots> = 0"
  proof (cases "sxx = 0")
    case True
    have z: "fst p - mx = 0" if "p \<in> set ps" for p
      using True that unfolding sxx_def by (rule sum_list_sq_zero)
    have "sxy = (\<Sum>p\<leftarrow>ps. 0)"
      unfolding sxy_def by (rule arg_cong [where f = sum_list]) (simp add: z)
    then have "sxy = 0" by simp
    with True show ?thesis by simp
  next
    case False
    then show ?thesis by (simp add: w)
  qed
  finally have sum_rx: "(\<Sum>p\<leftarrow>ps. r p * (fst p - mx)) = 0" .
  have "(\<Sum>p\<leftarrow>ps. r p * e p) =
        (\<Sum>p\<leftarrow>ps. (w - a) * (r p * (fst p - mx)) + \<beta> * r p)"
    unfolding e_def by (rule arg_cong [where f = sum_list]) (simp add: algebra_simps)
  also have "\<dots> = (w - a) * (\<Sum>p\<leftarrow>ps. r p * (fst p - mx)) + \<beta> * (\<Sum>p\<leftarrow>ps. r p)"
    by (simp add: sum_list_addf sum_list_const_mult)
  finally have orth: "(\<Sum>p\<leftarrow>ps. r p * e p) = 0"
    by (simp add: sum_r sum_rx)
  have fitted: "snd p - (w * fst p + b) = r p" for p
    by (simp add: r_def b algebra_simps)
  have other: "snd p - (a * fst p + c) = r p + e p" for p
    by (simp add: r_def e_def \<beta>_def b algebra_simps)
  show ?thesis
    unfolding fitted other by (rule sum_list_sq_plus [OF orth])
qed

lemma sse_pairs:
  "sse X y a b = (\<Sum>p\<leftarrow>zip X y. (snd p - (a * fst p + b)) * (snd p - (a * fst p + b)))"
  by (simp add: sse_def case_prod_unfold)

lemma fit_least_squares:
  assumes fit: "LinearRegression_fit X y = Inr m"
  shows "sse X y (coef m) (intercept m) \<le> sse X y a b"
  unfolding sse_pairs
  by (rule ols_optimal [OF fit_coefficients [OF fit]])

lemma nth_future_day_numbers:
  "k < nat h \<Longrightarrow> future_day_numbers n h ! k = of_nat (n + k)"
  by (simp add: future_day_numbers_def nth_upto)

lemma scenario_B_fit:
  "LinearRegression_fit (day_number scenario_B) (map snd scenario_B) =
     Inr \<lparr>coef = 100, intercept = 100\<rparr>"
  by code_simp

lemma scenario_B_forecast_1: "forecast_df scenario_B 1 = Inr [(19725, 300)]"
  by code_simp

text \<open>
  Claim C3.  The regressor is the zero-based position of the day in the series.  On a
  series that is not empty the fit returns a line whose sum of squared residuals no
  other line, of any slope and intercept, undercuts: the ordinary least-squares line of
  one regressor with an intercept.  The forecast of \<open>h\<close> days evaluates that line at the
  positions \<open>len\<close>, \<open>len + 1\<close>, \<open>\<dots>\<close>, \<open>len + h - 1\<close> (and clips and rounds the values).  On
  the two days of revenue 100 and 200 the line has slope 100 and intercept 100, and the
  forecast of one day is 300.
\<close>

theorem ols_fit_and_projection:
  "(\<forall>i<length ds. day_number ds ! i = of_nat i) \<and>
   (ds \<noteq> [] \<and> 1 \<le> h \<longrightarrow>
      (\<exists>m pts. LinearRegression_fit (day_number ds) (map snd ds) = Inr m \<and>
         (\<forall>a b. sse (day_number ds) (map snd ds) (coef m) (intercept m) \<le>
                  sse (day_number ds) (map snd ds) a b) \<and>
         forecast_df ds h = Inr pts \<and> length pts = nat h \<and>
         (\<forall>k<nat h. snd (pts ! k) =
            round2 (clip_lower 0 (coef m * of_nat (length ds + k) + intercept m))))) \<and>
   LinearRegression_fit (day_number scenario_B) (map snd scenario_B) =
     Inr \<lparr>coef = 100, intercept = 100\<rparr> \<and>
   forecast_df scenario_B 1 = Inr [(19725, 300)]"
proof -
  have idx: "\<forall>i<length ds. day_number ds ! i = of_nat i"
    by (simp add: day_number_def)
  have main: "\<exists>m pts. LinearRegression_fit (day_number ds) (map snd ds) = Inr m \<and>
         (\<forall>a b. sse (day_number ds) (map snd ds) (coef m) (intercept m) \<le>
                  sse (day_number ds) (map snd ds) a b) \<and>
         forecast_df ds h = Inr pts \<and> length pts = nat h \<and>
         (\<forall>k<nat h. snd (pts ! k) =
            round2 (clip_lower 0 (coef m * of_nat (length ds + k) + intercept m)))"
    if ne: "ds \<noteq> []" and pos: "1 \<le> h"
  proof -
    obtain m where fit: "LinearRegression_fit (day_number ds) (map snd ds) = Inr m"
      using fit_total [OF ne] by blast
    let ?pts = "zip [fst (last ds) + 1 .. fst (last ds) + h]
                  (map (\<lambda>x. round2 (clip_lower 0 (coef m * x + intercept m)))
                       (future_day_numbers (length ds) h))"
    have fc: "forecast_df ds h = Inr ?pts" by (rule forecast_df_eq [OF fit pos])
    have len: "length ?pts = nat h" by (simp add: length_future_day_numbers)
    have vals: "snd (?pts ! k) =
                  round2 (clip_lower 0 (coef m * of_nat (length ds + k) + intercept m))"
      if "k < nat h" for k
      using that by (simp add: length_future_day_numbers nth_future_day_numbers)
    have opt: "\<forall>a b. sse (day_number ds) (map snd ds) (coef m) (intercept m) \<le>
                     sse (day_number ds) (map snd ds) a b"
      using fit_least_squares [OF fit] by blast
    from fit opt fc len vals show ?thesis by blast
  qed
  from idx main scenario_B_fit scenario_B_forecast_1 show ?thesis by blast
qed

theorem ols_fit_and_projection_witness:
  "scenario_B \<noteq> [] \<and> (1::int) \<le> 1 \<and>
   (\<exists>m. LinearRegression_fit (day_number scenario_B) (map snd scenario_B) = Inr m \<and>
        coef m = 100 \<and> intercept m = 100 \<and>
        sse (day_number scenario_B) (map snd scenario_B) (coef m) (intercept m) \<le>
          sse (day_number scenario_B) (map snd scenario_B) 0 150)"
proof -
  have ne: "scenario_B \<noteq> []" by (simp add: scenario_B_def)
  from ols_fit_and_projection [of scenario_B 1, THEN conjunct2, THEN conjunct1] ne
  obtain m where fit: "LinearRegression_fit (day_number scenario_B) (map snd scenario_B) = Inr m"
    and opt: "\<forall>a b. sse (day_number scenario_B) (map snd scenario_B) (coef m) (intercept m) \<le>
                     sse (day_number scenario_B) (map snd scenario_B) a b"
    by auto
  from ols_fit_and_projection [of scenario_B 1] fit
  have "m = \<lparr>coef = 100, intercept = 100\<rparr>" by simp
  then have "coef m = 100" and "intercept m = 100" by simp_all
  with fit opt ne show ?thesis by auto
qed

end
